theory Spec2Isabelle
  imports Complex_Main "HOL-Library.Char_ord" "HOL-Library.List_Lexorder"
begin

section \<open>The flow network as a directed graph\<close>

text \<open>
  The script \<^verbatim>\<open>delineate_watershed.py\<close> keeps the flow network in a
  \<^verbatim>\<open>networkx.DiGraph\<close>. The graph library is not part of the repository, so the
  graph object and the operations the script calls on it are written here from the
  behaviour the specification gives them. Node ids (COMIDs) are Python ints.
\<close>

text \<open>
  The failures of a run: the two errors of the specification's taxonomy that the claims
  speak of, the \<^verbatim>\<open>TypeError\<close> and \<^verbatim>\<open>KeyError\<close> of Python, and the
  \<^verbatim>\<open>DataLayerError\<close> of the file driver.
\<close>

datatype error = UnknownNodeError | GeometryTypeError | TypeError | KeyError | DataLayerError

text \<open>
  Modelled from the spec: the \<^verbatim>\<open>DiGraph\<close> object of networkx (the library is not
  under src/). The NetworkGraph owns the set of nodes and the set of edges; the lists
  keep insertion order, as the dictionaries of the library do.
\<close>

record digraph =
  nodes :: "int list"
  edges :: "(int \<times> int) list"

definition DiGraph :: digraph where
  "DiGraph = \<lparr>nodes = [], edges = []\<rparr>"

text \<open>
  Modelled from the spec: \<^verbatim>\<open>G.add_nodes_from\<close> of networkx. Nodes are added from
  the full node list, independent of whether they appear in an edge; a node that is
  already present is kept once.
\<close>

definition add_node :: "digraph \<Rightarrow> int \<Rightarrow> digraph" where
  "add_node G n = (if n \<in> set (nodes G) then G else G\<lparr>nodes := nodes G @ [n]\<rparr>)"

definition add_nodes_from :: "digraph \<Rightarrow> int list \<Rightarrow> digraph" where
  "add_nodes_from G ns = foldl add_node G ns"

text \<open>
  Modelled from the spec: \<^verbatim>\<open>G.add_edges_from\<close> of networkx. An edge that references
  an id absent from the node list adds that node implicitly; duplicate edges and
  self-loops are accepted (a duplicate is the same edge again).
\<close>

definition add_edge :: "digraph \<Rightarrow> int \<times> int \<Rightarrow> digraph" where
  "add_edge G e =
     (let G1 = add_node (add_node G (fst e)) (snd e)
      in if e \<in> set (edges G1) then G1 else G1\<lparr>edges := edges G1 @ [e]\<rparr>)"

definition add_edges_from :: "digraph \<Rightarrow> (int \<times> int) list \<Rightarrow> digraph" where
  "add_edges_from G es = foldl add_edge G es"

text \<open>
  Lines 122--130 of the script. The flow table is the list of its rows
  \<open>(comid, tocomid)\<close>; \<^verbatim>\<open>terminal_flows\<close> marks the rows whose \<^verbatim>\<open>tocomid\<close> is 0 and
  the edge list is taken from the rows that are not marked.
\<close>

type_synonym flowtable = "(int \<times> int) list"

definition terminal_flows :: "flowtable \<Rightarrow> bool list" where
  "terminal_flows ft = map (\<lambda>r. snd r = 0) ft"

definition flow_edges :: "flowtable \<Rightarrow> (int \<times> int) list" where
  "flow_edges ft = map fst (filter (\<lambda>(r, t). \<not> t) (zip ft (terminal_flows ft)))"

definition build_graph :: "flowtable \<Rightarrow> digraph" where
  "build_graph ft =
     (let G = DiGraph;
          G = add_nodes_from G (map fst ft)
      in add_edges_from G (flow_edges ft))"

section \<open>Upstream reachability\<close>

text \<open>
  Modelled from the spec: \<^verbatim>\<open>G.predecessors\<close> of networkx: the nodes with an edge
  pointing at \<open>v\<close>.
\<close>

definition predecessors :: "digraph \<Rightarrow> int \<Rightarrow> int list" where
  "predecessors G v = map fst (filter (\<lambda>e. snd e = v) (edges G))"

text \<open>
  Modelled from the spec: the scan of the predecessors of a node that is expanded.
  It yields the children that were not seen before, each taken once, in the order
  they are met; \<open>seen\<close> grows while the children are scanned.
\<close>

fun unseen :: "int list \<Rightarrow> int list \<Rightarrow> int list" where
  "unseen seen [] = []"
| "unseen seen (c # cs) =
     (if c \<in> set seen then unseen seen cs else c # unseen (c # seen) cs)"

lemma set_unseen: "set (unseen seen cs) = set cs - set seen"
  by (induction cs arbitrary: seen) auto

lemma distinct_unseen: "distinct (unseen seen cs)"
  by (induction cs arbitrary: seen) (auto simp: set_unseen)

lemma set_predecessors: "set (predecessors G v) = {u. (u, v) \<in> set (edges G)}"
  by (force simp: predecessors_def)

lemma unseen_predecessors_subset:
  "set (unseen seen (predecessors G v)) \<subseteq> fst ` set (edges G) - set seen"
  by (force simp: set_unseen set_predecessors)

text \<open>
  The order in which the traversal makes progress: a step either sees a new node that
  has an outgoing edge, of which the graph has finitely many, or it only shortens the
  queue.
\<close>

definition bfs_order :: "((digraph \<times> int list \<times> int list) \<times> (digraph \<times> int list \<times> int list)) set" where
  "bfs_order = (\<lambda>(G, seen, queue). card (fst ` set (edges G) - set seen)) <*mlex*>
               measure (\<lambda>(G, seen, queue). length queue)"

lemma wf_bfs_order: "wf bfs_order"
  by (simp add: bfs_order_def wf_mlex)

lemma bfs_step_decreases:
  assumes new: "new = unseen seen (predecessors G v)"
  shows "((G, seen @ new, queue @ new), (G, seen, v # queue)) \<in> bfs_order"
proof (cases "new = []")
  case True
  then show ?thesis by (simp add: bfs_order_def mlex_iff)
next
  case False
  let ?V = "fst ` set (edges G)"
  from False obtain u where u: "u \<in> set new" by (cases new) auto
  have sub: "set new \<subseteq> ?V - set seen"
    using new unseen_predecessors_subset by simp
  have "?V - set (seen @ new) \<subset> ?V - set seen"
    using u sub by auto
  then have "card (?V - set (seen @ new)) < card (?V - set seen)"
    by (intro psubset_card_mono) auto
  then show ?thesis by (simp add: bfs_order_def mlex_iff)
qed

text \<open>
  Modelled from the spec: the traversal behind \<^verbatim>\<open>nx.ancestors\<close> (networkx is not
  under src/): a reverse breadth-first traversal from the source over the predecessor
  relation that maintains a visited set, so that a node is expanded at most once. The
  function returns the nodes in the order they are discovered; the visited set starts
  as the source alone, which is why the source is never discovered.
\<close>

function bfs_reverse :: "digraph \<Rightarrow> int list \<Rightarrow> int list \<Rightarrow> int list" where
  "bfs_reverse G seen [] = []"
| "bfs_reverse G seen (v # queue) =
     (let new = unseen seen (predecessors G v)
      in new @ bfs_reverse G (seen @ new) (queue @ new))"
  by pat_completeness auto
termination bfs_reverse
  by (relation bfs_order) (auto intro: wf_bfs_order bfs_step_decreases)

text \<open>
  The same traversal, returning the nodes it expands (takes from the queue and scans
  the predecessors of), in the order it expands them.
\<close>

function expansions :: "digraph \<Rightarrow> int list \<Rightarrow> int list \<Rightarrow> int list" where
  "expansions G seen [] = []"
| "expansions G seen (v # queue) =
     (let new = unseen seen (predecessors G v)
      in v # expansions G (seen @ new) (queue @ new))"
  by pat_completeness auto
termination expansions
  by (relation bfs_order) (auto intro: wf_bfs_order bfs_step_decreases)

text \<open>
  Modelled from the spec: \<^verbatim>\<open>nx.ancestors(G, source)\<close>: all nodes from which the
  source is reachable; fails with \<open>UnknownNodeError\<close> if the source is not a node of the
  graph. The library returns a Python set; the list here is duplicate-free and stands
  for that set.
\<close>

definition ancestors :: "digraph \<Rightarrow> int \<Rightarrow> error + int list" where
  "ancestors G source =
     (if source \<notin> set (nodes G) then Inl UnknownNodeError
      else Inr (bfs_reverse G [source] [source]))"

text \<open>
  \<open>reaches G m n\<close>: water entering segment \<open>m\<close> arrives at \<open>n\<close> along at least one
  edge of the graph.
\<close>

definition reaches :: "digraph \<Rightarrow> int \<Rightarrow> int \<Rightarrow> bool" where
  "reaches G m n \<longleftrightarrow> (m, n) \<in> (set (edges G))\<^sup>+"

text \<open>
  The invariant of the traversal: the queue is part of the visited set, and every
  visited node that is no longer queued has all its predecessors visited.
\<close>

definition closed :: "digraph \<Rightarrow> int set \<Rightarrow> int set \<Rightarrow> bool" where
  "closed G S Q \<longleftrightarrow> Q \<subseteq> S \<and> (\<forall>x \<in> S - Q. \<forall>u. (u, x) \<in> set (edges G) \<longrightarrow> u \<in> S)"

section \<open>Geometries and geodataframes\<close>

text \<open>
  A geometry of shapely, by its \<^verbatim>\<open>geom_type\<close>. The coordinates of a simple geometry
  are a value of the type parameter: nothing in the script looks into them. A
  \<^verbatim>\<open>MultiPolygon\<close> is built from the list of its member polygons.
\<close>

datatype 'a geometry =
    Point 'a
  | LineString 'a
  | LinearRing 'a
  | Polygon 'a
  | MultiPoint "'a list"
  | MultiLineString "'a list"
  | MultiPolygon "'a list"
  | GeometryCollection "'a geometry list"

fun geom_type :: "'a geometry \<Rightarrow> string" where
  "geom_type (Point a) = ''Point''"
| "geom_type (LineString a) = ''LineString''"
| "geom_type (LinearRing a) = ''LinearRing''"
| "geom_type (Polygon a) = ''Polygon''"
| "geom_type (MultiPoint as) = ''MultiPoint''"
| "geom_type (MultiLineString as) = ''MultiLineString''"
| "geom_type (MultiPolygon as) = ''MultiPolygon''"
| "geom_type (GeometryCollection gs) = ''GeometryCollection''"

text \<open>The empty geometry: a geometry collection without members.\<close>

definition empty_geometry :: "'a geometry" where
  "empty_geometry = GeometryCollection []"

text \<open>
  \<^verbatim>\<open>.centroid\<close> gives a point for every geometry; where the point lies is computed
  by the geometry library and is the parameter \<open>cen\<close>.
\<close>

definition centroid :: "('a geometry \<Rightarrow> 'a) \<Rightarrow> 'a geometry \<Rightarrow> 'a geometry" where
  "centroid cen g = Point (cen g)"

text \<open>
  \<^verbatim>\<open>MultiPolygon([feature])\<close> for a feature that is a polygon: the multi-polygon
  with that polygon as its single member.
\<close>

fun single_member :: "'a geometry \<Rightarrow> 'a geometry" where
  "single_member (Polygon a) = MultiPolygon [a]"
| "single_member g = g"

text \<open>
  Modelled from the spec: \<^verbatim>\<open>union_all\<close> of geopandas (not under src/). The union of
  no geometry at all is the empty geometry; the union of a non-empty sequence is
  computed by the geometry library and is the parameter \<open>U\<close>.
\<close>

definition union_all :: "('a geometry list \<Rightarrow> 'a geometry) \<Rightarrow> 'a geometry list \<Rightarrow> 'a geometry" where
  "union_all U gs = (if gs = [] then empty_geometry else U gs)"

text \<open>
  A row of a geodataframe that has the columns \<^verbatim>\<open>COMID\<close> and \<^verbatim>\<open>geometry\<close>, as
  \<^verbatim>\<open>catchments\<close> has; the rows of \<^verbatim>\<open>stations\<close> and \<^verbatim>\<open>watersheds\<close> extend it.
  A geodataframe is the list of its rows.
\<close>

record 'a feature =
  COMID :: int
  geometry :: "'a geometry"

record 'a station = "'a feature" +
  site_no :: string
  proportion_matched :: "rat option"

section \<open>Delineating one watershed\<close>

text \<open>
  \<^verbatim>\<open>pd.Series(xs).isin(col)\<close> and \<^verbatim>\<open>.mean()\<close> of a boolean series: the share of
  \<open>True\<close>, here an exact fraction. The series of \<open>get_watershed_boundaries\<close> always
  holds the source, so the mean of an empty series does not arise.
\<close>

definition isin :: "int list \<Rightarrow> int list \<Rightarrow> bool list" where
  "isin xs col = map (\<lambda>x. x \<in> set col) xs"

definition mean :: "bool list \<Rightarrow> rat" where
  "mean bs = of_nat (length (filter (\<lambda>b. b) bs)) / of_nat (length bs)"

text \<open>Lines 11--25. An exception of \<^verbatim>\<open>nx.ancestors\<close> leaves the function as it is.\<close>

definition get_watershed_boundaries ::
  "('a geometry list \<Rightarrow> 'a geometry) \<Rightarrow> int \<Rightarrow> digraph \<Rightarrow> ('a, 'm) feature_scheme list
     \<Rightarrow> error + 'a geometry \<times> rat" where
  "get_watershed_boundaries U source_comid G catchments =
     (case ancestors G source_comid of
        Inl e \<Rightarrow> Inl e
      | Inr upstream_comids \<Rightarrow>
          (let watershed_comids = [source_comid] @ upstream_comids;
               proportion_matched = mean (isin watershed_comids (map COMID catchments));
               watershed_polygon =
                 union_all U
                   (map geometry (filter (\<lambda>r. COMID r \<in> set watershed_comids) catchments))
           in Inr (watershed_polygon, proportion_matched)))"

text \<open>
  The quantities of the specification's aggregator: \<open>upstream\<close> is the ancestor set
  with the source added, \<open>queried_count\<close> its size and \<open>matched_count\<close> the number of
  its ids that have a stored geometry, that is a row of \<^verbatim>\<open>catchments\<close>.
\<close>

definition upstream :: "digraph \<Rightarrow> int \<Rightarrow> int set" where
  "upstream G source = insert source {m. reaches G m source}"

definition stored :: "('a, 'm) feature_scheme list \<Rightarrow> int \<Rightarrow> bool" where
  "stored catchments n \<longleftrightarrow> n \<in> COMID ` set catchments"

definition queried_count :: "digraph \<Rightarrow> int \<Rightarrow> nat" where
  "queried_count G source = card (upstream G source)"

definition matched_count :: "digraph \<Rightarrow> ('a, 'm) feature_scheme list \<Rightarrow> int \<Rightarrow> nat" where
  "matched_count G catchments source = card {n \<in> upstream G source. stored catchments n}"

text \<open>
  The result of the specification's aggregator for a source: the union of the stored
  geometries of \<open>upstream\<close>, and \<open>matched_count / queried_count\<close>.
\<close>

definition merged_geometry ::
  "('a geometry list \<Rightarrow> 'a geometry) \<Rightarrow> digraph \<Rightarrow> ('a, 'm) feature_scheme list \<Rightarrow> int
     \<Rightarrow> 'a geometry" where
  "merged_geometry U G catchments source =
     union_all U (map geometry (filter (\<lambda>r. COMID r \<in> upstream G source) catchments))"

definition match_ratio_of :: "digraph \<Rightarrow> ('a, 'm) feature_scheme list \<Rightarrow> int \<Rightarrow> rat" where
  "match_ratio_of G catchments source =
     of_nat (matched_count G catchments source) / of_nat (queried_count G source)"

section \<open>The loop over the gages\<close>

text \<open>
  Lines 144--157. \<^verbatim>\<open>watersheds\<close> is a geodataframe with an index: the list of its
  rows, each with its index label. The labels come from \<^verbatim>\<open>stations\<close> through the
  inner spatial join of line 141, which repeats the label of a station that falls into
  more than one catchment polygon.

  \<^verbatim>\<open>watersheds.loc[i, column]\<close> selects by label. \<open>loc\<close> gives the rows that carry
  the label: one row stands for the scalar the loop expects, several rows for the
  series pandas returns, no row for its \<^verbatim>\<open>KeyError\<close>. \<open>set_loc\<close> is the assignment
  of line 152 to the two columns of the rows with that label.
\<close>

type_synonym 'a indexed_frame = "(int \<times> 'a station) list"

definition loc :: "'a indexed_frame \<Rightarrow> int \<Rightarrow> 'a station list" where
  "loc watersheds i = map snd (filter (\<lambda>x. fst x = i) watersheds)"

definition set_loc :: "'a indexed_frame \<Rightarrow> int \<Rightarrow> 'a geometry \<Rightarrow> rat \<Rightarrow> 'a indexed_frame" where
  "set_loc watersheds i g p =
     map (\<lambda>x. if fst x = i
              then (fst x, (snd x)\<lparr>geometry := g, proportion_matched := Some p\<rparr>)
              else x) watersheds"

text \<open>
  The loop of lines 150--157 over the index labels. \<open>out\<close> holds the lines printed so
  far (site number and share matched; the rounding of the printed percentage is left
  out). A label that the index holds more than once makes line 151 pass a series of
  COMIDs where one id is expected; a series cannot be hashed, and the call of line 152
  fails with a \<^verbatim>\<open>TypeError\<close>. The loop has no exception handler: an exception ends the
  run, and the result then holds the frame and the output as they were at that moment,
  with the exception.
\<close>

fun delineate_all ::
  "('a geometry list \<Rightarrow> 'a geometry) \<Rightarrow> digraph \<Rightarrow> ('a, 'm) feature_scheme list
     \<Rightarrow> 'a indexed_frame \<Rightarrow> int list \<Rightarrow> (string \<times> rat) list
     \<Rightarrow> 'a indexed_frame \<times> (string \<times> rat) list \<times> error option" where
  "delineate_all U G catchments watersheds [] out = (watersheds, out, None)"
| "delineate_all U G catchments watersheds (i # labels) out =
     (case loc watersheds i of
        [] \<Rightarrow> (watersheds, out, Some KeyError)
      | [w] \<Rightarrow>
          (case get_watershed_boundaries U (COMID w) G catchments of
             Inl e \<Rightarrow> (watersheds, out, Some e)
           | Inr (watershed_polygon, p) \<Rightarrow>
               delineate_all U G catchments (set_loc watersheds i watershed_polygon p)
                 labels (out @ [(site_no w, p)]))
      | w # w' # ws \<Rightarrow> (watersheds, out, Some TypeError))"

text \<open>
  Lines 144--157 as a whole: \<^verbatim>\<open>watersheds\<close> is a copy of \<^verbatim>\<open>stations\<close>, its column
  \<^verbatim>\<open>proportion_matched\<close> is set to NaN (no value) in every row, and the loop runs
  over \<^verbatim>\<open>watersheds.index.values\<close>.
\<close>

definition delineate_gages ::
  "('a geometry list \<Rightarrow> 'a geometry) \<Rightarrow> digraph \<Rightarrow> ('a, 'm) feature_scheme list
     \<Rightarrow> 'a indexed_frame \<Rightarrow> 'a indexed_frame \<times> (string \<times> rat) list \<times> error option" where
  "delineate_gages U G catchments stations =
     (let watersheds = map (\<lambda>x. (fst x, (snd x)\<lparr>proportion_matched := None\<rparr>)) stations
      in delineate_all U G catchments watersheds (map fst watersheds) [])"

text \<open>
  A row after line 152 and the line printed for it, in the terms of the
  specification's aggregator.
\<close>

definition delineated ::
  "('a geometry list \<Rightarrow> 'a geometry) \<Rightarrow> digraph \<Rightarrow> ('a, 'm) feature_scheme list
     \<Rightarrow> int \<times> 'a station \<Rightarrow> int \<times> 'a station" where
  "delineated U G catchments x =
     (fst x, (snd x)\<lparr>geometry := merged_geometry U G catchments (COMID (snd x)),
                      proportion_matched := Some (match_ratio_of G catchments (COMID (snd x)))\<rparr>)"

definition printed_line ::
  "digraph \<Rightarrow> ('a, 'm) feature_scheme list \<Rightarrow> int \<times> 'a station \<Rightarrow> string \<times> rat" where
  "printed_line G catchments x = (site_no (snd x), match_ratio_of G catchments (COMID (snd x)))"

section \<open>Writing a layer\<close>

text \<open>
  \<open>write_geodatabase\<close> receives a reference to the caller's geodataframe and assigns
  to its geometry column. The state is therefore explicit: \<open>frames\<close> maps a reference
  to the geodataframe it denotes, \<open>files\<close> lists the layers written so far (path and
  layer name, with the rows handed to the driver) and \<open>stdout\<close> the printed lines.
\<close>

record ('a, 'm) world =
  frames :: "nat \<Rightarrow> ('a, 'm) feature_scheme list option"
  files :: "((string \<times> string) \<times> ('a, 'm) feature_scheme list) list"
  stdout :: "string list"

definition unique_values :: "string list \<Rightarrow> string list" where
  "unique_values xs = rev (remdups (rev xs))"

definition set_geometry ::
  "('a, 'm) feature_scheme list \<Rightarrow> 'a geometry list \<Rightarrow> ('a, 'm) feature_scheme list" where
  "set_geometry rows gs = map (\<lambda>(r, g). r\<lparr>geometry := g\<rparr>) (zip rows gs)"

definition print :: "string \<Rightarrow> ('a, 'm) world \<Rightarrow> ('a, 'm) world" where
  "print line w = w\<lparr>stdout := stdout w @ [line]\<rparr>"

text \<open>
  The OpenFileGDB driver behind \<^verbatim>\<open>to_file\<close> is not part of the repository. A layer
  has one geometry type: the driver stores a layer whose rows all have the same
  geometry type, and it refuses an empty layer and a layer that mixes geometry types
  with a \<^verbatim>\<open>DataLayerError\<close>. This is what the upcast of lines 45--49 is there for.
\<close>

definition driver_accepts :: "('a, 'm) feature_scheme list \<Rightarrow> bool" where
  "driver_accepts rows \<longleftrightarrow> length (remdups (map (\<lambda>r. geom_type (geometry r)) rows)) = 1"

text \<open>
  \<^verbatim>\<open>gdf.to_file(filepath, layer=layer_name, driver='OpenFileGDB')\<close>. A failure
  carries the state it leaves behind: what was printed and assigned before stays so.
\<close>

definition to_file ::
  "nat \<Rightarrow> string \<Rightarrow> string \<Rightarrow> ('a, 'm) world \<Rightarrow> error \<times> ('a, 'm) world + ('a, 'm) world" where
  "to_file gdf filepath layer w =
     (case frames w gdf of
        None \<Rightarrow> Inr w
      | Some rows \<Rightarrow>
          if driver_accepts rows
          then Inr (w\<lparr>files := files w @ [((filepath, layer), rows)]\<rparr>)
          else Inl (DataLayerError, w))"

text \<open>
  Lines 27--53. The function has no \<^verbatim>\<open>raise\<close> of its own and returns \<^verbatim>\<open>None\<close>; the
  result is the state it leaves, or the failure of the driver. A reference that
  denotes no geodataframe cannot be passed in Python; the model leaves the state
  alone there.
\<close>

definition write_geodatabase ::
  "('a geometry \<Rightarrow> 'a) \<Rightarrow> nat \<Rightarrow> string \<Rightarrow> string \<Rightarrow> bool \<Rightarrow> ('a, 'm) world
     \<Rightarrow> error \<times> ('a, 'm) world + ('a, 'm) world" where
  "write_geodatabase cen gdf filepath layer_name polygons_as_points w =
     (case frames w gdf of
        None \<Rightarrow> Inr w
      | Some rows \<Rightarrow>
          (let geom_types = sort (unique_values (map (\<lambda>r. geom_type (geometry r)) rows));
               w1 =
                 (if polygons_as_points then
                    (if \<exists>x \<in> set [''Polygon'', ''MultiPolygon'']. x \<in> set geom_types
                     then w\<lparr>frames := (frames w)(gdf \<mapsto>
                            set_geometry rows (map (\<lambda>r. centroid cen (geometry r)) rows))\<rparr>
                     else w)
                  else if length geom_types > 1 then
                    (let w' = print ''warning: multiple geometry types in geodataframe'' w
                     in if geom_types = [''MultiPolygon'', ''Polygon''] then
                          (let w'' = print
                                 ''upcasting polygons to multipolygons to achieve consistency'' w'
                           in w''\<lparr>frames := (frames w'')(gdf \<mapsto>
                                set_geometry rows
                                  (map (\<lambda>feature. if geom_type feature = ''Polygon''
                                                   then single_member feature else feature)
                                     (map geometry rows)))\<rparr>)
                        else w')
                  else w)
           in to_file gdf filepath layer_name w1))"

section \<open>Properties of the traversal\<close>

lemma bfs_reverse_unseen: "set (bfs_reverse G seen queue) \<inter> set seen = {}"
proof (induction G seen queue rule: bfs_reverse.induct)
  case (1 G seen)
  show ?case by simp
next
  case (2 G seen v queue)
  define new where "new = unseen seen (predecessors G v)"
  have "set (bfs_reverse G (seen @ new) (queue @ new)) \<inter> set (seen @ new) = {}"
    using 2 [OF new_def] .
  moreover have "set new \<inter> set seen = {}"
    by (auto simp: new_def set_unseen)
  ultimately show ?case
    by (auto simp: Let_def new_def [symmetric])
qed

lemma bfs_reverse_distinct: "distinct (bfs_reverse G seen queue)"
proof (induction G seen queue rule: bfs_reverse.induct)
  case (1 G seen)
  show ?case by simp
next
  case (2 G seen v queue)
  define new where "new = unseen seen (predecessors G v)"
  have "distinct (bfs_reverse G (seen @ new) (queue @ new))"
    using 2 [OF new_def] .
  moreover have "set (bfs_reverse G (seen @ new) (queue @ new)) \<inter> set (seen @ new) = {}"
    by (rule bfs_reverse_unseen)
  moreover have "distinct new"
    by (simp add: new_def distinct_unseen)
  ultimately show ?case
    by (auto simp: Let_def new_def [symmetric])
qed

lemma expansions_queue: "expansions G seen queue = queue @ bfs_reverse G seen queue"
proof (induction G seen queue rule: bfs_reverse.induct)
  case (1 G seen)
  show ?case by simp
next
  case (2 G seen v queue)
  define new where "new = unseen seen (predecessors G v)"
  have "expansions G (seen @ new) (queue @ new) =
        (queue @ new) @ bfs_reverse G (seen @ new) (queue @ new)"
    using 2 [OF new_def] .
  then show ?case
    by (simp add: Let_def new_def [symmetric])
qed

lemma closed_reach:
  assumes "closed G S Q" and "(m, u) \<in> (set (edges G))\<^sup>*" and "u \<in> S"
  shows "m \<in> S \<or> (\<exists>x \<in> Q. (m, x) \<in> (set (edges G))\<^sup>*)"
  using assms(2,3)
proof (induction rule: rtrancl_induct)
  case base
  then show ?case by simp
next
  case (step y z)
  show ?case
  proof (cases "z \<in> Q")
    case True
    with step show ?thesis by (meson rtrancl.rtrancl_into_rtrancl)
  next
    case False
    with step assms(1) have "y \<in> S" by (auto simp: closed_def)
    with step show ?thesis by blast
  qed
qed

lemma bfs_reverse_reach:
  "closed G (set seen) (set queue) \<Longrightarrow>
   set seen \<union> set (bfs_reverse G seen queue) =
   set seen \<union> {m. \<exists>x \<in> set queue. (m, x) \<in> (set (edges G))\<^sup>*}"
proof (induction G seen queue rule: bfs_reverse.induct)
  case (1 G seen)
  show ?case by simp
next
  case (2 G seen v queue)
  define new where "new = unseen seen (predecessors G v)"
  let ?E = "set (edges G)"
  have new: "set new = {u. (u, v) \<in> ?E} - set seen"
    by (simp add: new_def set_unseen set_predecessors)
  have cl: "closed G (set (seen @ new)) (set (queue @ new))"
    using "2.prems" new by (auto simp: closed_def)
  have IH: "set (seen @ new) \<union> set (bfs_reverse G (seen @ new) (queue @ new)) =
            set (seen @ new) \<union> {m. \<exists>x \<in> set (queue @ new). (m, x) \<in> ?E\<^sup>*}"
    using "2.IH" [OF new_def cl] .
  have "set seen \<union> set new \<union> {m. \<exists>x \<in> set queue \<union> set new. (m, x) \<in> ?E\<^sup>*} =
        set seen \<union> {m. \<exists>x \<in> insert v (set queue). (m, x) \<in> ?E\<^sup>*}" (is "?L = ?R")
  proof (intro equalityI subsetI)
    fix m assume "m \<in> ?L"
    then consider "m \<in> set seen" | "m \<in> set new" | x where "x \<in> set queue" "(m, x) \<in> ?E\<^sup>*"
      | x where "x \<in> set new" "(m, x) \<in> ?E\<^sup>*" by blast
    then show "m \<in> ?R"
    proof cases
      case 1 then show ?thesis by simp
    next
      case 2
      then have "(m, v) \<in> ?E" using new by simp
      then show ?thesis by blast
    next
      case 3 then show ?thesis by blast
    next
      case 4
      then have "(x, v) \<in> ?E" using new by simp
      with 4 have "(m, v) \<in> ?E\<^sup>*" by (meson rtrancl.rtrancl_into_rtrancl)
      then show ?thesis by blast
    qed
  next
    fix m assume "m \<in> ?R"
    then consider "m \<in> set seen" | x where "x \<in> set queue" "(m, x) \<in> ?E\<^sup>*"
      | "(m, v) \<in> ?E\<^sup>*" by blast
    then show "m \<in> ?L"
    proof cases
      case 1 then show ?thesis by simp
    next
      case 2 then show ?thesis by blast
    next
      case 3
      have "v \<in> set (seen @ new)" using "2.prems" by (auto simp: closed_def)
      from closed_reach [OF cl 3 this] show ?thesis by auto
    qed
  qed
  with IH show ?case
    by (simp add: Let_def new_def [symmetric] Un_assoc)
qed

lemma bfs_reverse_source:
  "set (bfs_reverse G [s] [s]) = {m. m \<noteq> s \<and> (m, s) \<in> (set (edges G))\<^sup>+}"
proof -
  have "closed G (set [s]) (set [s])" by (simp add: closed_def)
  from bfs_reverse_reach [OF this]
  have "insert s (set (bfs_reverse G [s] [s])) = insert s {m. (m, s) \<in> (set (edges G))\<^sup>*}"
    by simp
  moreover have "s \<notin> set (bfs_reverse G [s] [s])"
    using bfs_reverse_unseen [of G "[s]" "[s]"] by simp
  ultimately have "set (bfs_reverse G [s] [s]) = {m. (m, s) \<in> (set (edges G))\<^sup>*} - {s}"
    by auto
  then show ?thesis by (auto simp: rtrancl_eq_or_trancl)
qed

lemma ancestors_set:
  "source \<in> set (nodes G) \<Longrightarrow>
   \<exists>ups. ancestors G source = Inr ups \<and> distinct ups \<and>
         set ups = {m. m \<noteq> source \<and> reaches G m source}"
  by (simp add: ancestors_def bfs_reverse_distinct bfs_reverse_source reaches_def
        del: bfs_reverse.simps)

lemma count_list_distinct:
  "distinct xs \<Longrightarrow> count_list xs x = (if x \<in> set xs then 1 else 0)"
  by (induction xs) auto

section \<open>Claims about the reachability operation\<close>

text \<open>
  Claim C1. For every graph and every id, \<open>ancestors\<close> fails with \<open>UnknownNodeError\<close>
  if and only if the id is not a node of the graph; when it is a node, a set of
  upstream nodes is returned and the source is not in it, also when the graph has a
  self-loop on the source.
\<close>

theorem ancestors_unknown_node:
  "(ancestors G source = Inl UnknownNodeError \<longleftrightarrow> source \<notin> set (nodes G)) \<and>
   (source \<in> set (nodes G) \<longrightarrow>
      (\<exists>ups. ancestors G source = Inr ups \<and> source \<notin> set ups))"
proof -
  have "source \<notin> set (bfs_reverse G [source] [source])"
    using bfs_reverse_unseen [of G "[source]" "[source]"] by simp
  then show ?thesis by (simp add: ancestors_def del: bfs_reverse.simps)
qed

text \<open>
  The theorem at a graph with a self-loop on node 1: the id 7 is no node and is refused,
  the ancestors of node 1 are node 2 alone.
\<close>

theorem ancestors_unknown_node_witness:
  "(ancestors \<lparr>nodes = [1, 2], edges = [(1, 1), (2, 1)]\<rparr> 7 = Inl UnknownNodeError \<longleftrightarrow>
      7 \<notin> set (nodes \<lparr>nodes = [1, 2], edges = [(1, 1), (2, 1)]\<rparr>)) \<and>
   7 \<notin> set (nodes \<lparr>nodes = [1, 2], edges = [(1, 1), (2, 1)]\<rparr>) \<and>
   1 \<in> set (nodes \<lparr>nodes = [1, 2], edges = [(1, 1), (2, 1)]\<rparr>) \<and>
   ancestors \<lparr>nodes = [1, 2], edges = [(1, 1), (2, 1)]\<rparr> 1 = Inr [2] \<and> 1 \<notin> set [2::int]"
  using ancestors_unknown_node [of "\<lparr>nodes = [1, 2], edges = [(1, 1), (2, 1)]\<rparr>" 7]
    ancestors_unknown_node [of "\<lparr>nodes = [1, 2], edges = [(1, 1), (2, 1)]\<rparr>" 1]
  by (simp add: ancestors_def predecessors_def)

text \<open>
  Claim C8. For every graph and every node of it that no edge points at, \<open>ancestors\<close>
  returns the empty set, so the watershed covers only the source's own geometry:
  delineation merges exactly the catchment rows of the source itself, and the share
  matched is 1 or 0 as the source has a stored geometry or not.
\<close>

theorem ancestors_no_predecessors:
  assumes "n \<in> set (nodes G)" and "\<forall>u. (u, n) \<notin> set (edges G)"
  shows "ancestors G n = Inr [] \<and>
         get_watershed_boundaries U n G catchments =
           Inr (union_all U (map geometry (filter (\<lambda>r. COMID r = n) catchments)),
                if stored catchments n then 1 else 0)"
proof -
  have "predecessors G n = []"
    using assms(2) by (auto simp: predecessors_def filter_empty_conv)
  with assms(1) have a: "ancestors G n = Inr []" by (simp add: ancestors_def)
  have "mean (isin [n] (map COMID catchments)) = (if stored catchments n then 1 else 0)"
    by (simp add: mean_def isin_def stored_def)
  with a show ?thesis
    by (simp add: get_watershed_boundaries_def)
qed

text \<open>
  Node 3 of the chain \<open>3 \<rightarrow> 2 \<rightarrow> 1\<close> has no predecessor: of the three stored
  catchments only its own is merged.
\<close>

theorem ancestors_no_predecessors_witness:
  "3 \<in> set (nodes \<lparr>nodes = [1, 2, 3], edges = [(2, 1), (3, 2)]\<rparr>) \<and>
   (\<forall>u. (u, 3) \<notin> set (edges \<lparr>nodes = [1, 2, 3], edges = [(2, 1), (3, 2)]\<rparr>)) \<and>
   ancestors \<lparr>nodes = [1, 2, 3], edges = [(2, 1), (3, 2)]\<rparr> 3 = Inr [] \<and>
   get_watershed_boundaries GeometryCollection 3 \<lparr>nodes = [1, 2, 3], edges = [(2, 1), (3, 2)]\<rparr>
     [\<lparr>COMID = 1, geometry = Polygon (10::nat)\<rparr>, \<lparr>COMID = 2, geometry = Polygon 20\<rparr>,
      \<lparr>COMID = 3, geometry = Polygon 30\<rparr>]
     = Inr (GeometryCollection [Polygon 30], 1)"
proof -
  have a: "3 \<in> set (nodes \<lparr>nodes = [1, 2, 3], edges = [(2, 1), (3, 2)]\<rparr>)" by simp
  have b: "\<forall>u. (u, 3) \<notin> set (edges \<lparr>nodes = [1, 2, 3], edges = [(2, 1), (3, 2)]\<rparr>)" by simp
  from ancestors_no_predecessors [OF a b, of GeometryCollection
      "[\<lparr>COMID = 1, geometry = Polygon (10::nat)\<rparr>, \<lparr>COMID = 2, geometry = Polygon 20\<rparr>,
        \<lparr>COMID = 3, geometry = Polygon 30\<rparr>]"] a b
  show ?thesis by (simp add: stored_def union_all_def)
qed

text \<open>
  Claim C2, as stated: on a graph with a cycle through \<open>n\<close> the computation returns
  and every node from which \<open>n\<close> is reachable appears exactly once in the result. On
  the cycle \<open>1 \<rightarrow> 2 \<rightarrow> 1\<close> node 1 is reachable from node 1, and it does not appear in
  the ancestors of node 1: the source is excluded from its own ancestor set.
\<close>

theorem ancestors_cycle_source_absent:
  "reaches \<lparr>nodes = [1, 2], edges = [(1, 2), (2, 1)]\<rparr> 1 1 \<and>
   1 \<in> set (nodes \<lparr>nodes = [1, 2], edges = [(1, 2), (2, 1)]\<rparr>) \<and>
   ancestors \<lparr>nodes = [1, 2], edges = [(1, 2), (2, 1)]\<rparr> 1 = Inr [2] \<and>
   count_list [2::int] 1 = 0"
proof -
  have "(1, 1) \<in> {(1::int, 2::int), (2, 1)}\<^sup>+"
    by (rule trancl_into_trancl [of _ 2]) auto
  then show ?thesis
    by (simp add: reaches_def ancestors_def predecessors_def)
qed

text \<open>
  Claim C2, amended. For every graph and every node \<open>n\<close> of it, with or without a
  cycle through \<open>n\<close>, the computation of the ancestors returns (the traversal is a
  total function), and in the result every node other than \<open>n\<close> from which \<open>n\<close> is
  reachable appears exactly once; nothing else appears. The nodes the traversal
  expands are \<open>n\<close> and then the ancestors in the order of their discovery, so no node
  is expanded more than once.
\<close>

theorem ancestors_cycle_once:
  assumes "n \<in> set (nodes G)"
  shows "\<exists>ups. ancestors G n = Inr ups \<and>
           (\<forall>m. count_list ups m = (if m \<noteq> n \<and> reaches G m n then 1 else 0)) \<and>
           expansions G [n] [n] = n # ups \<and> distinct (expansions G [n] [n])"
proof -
  from ancestors_set [OF assms] obtain ups where
    ups: "ancestors G n = Inr ups" "distinct ups" "set ups = {m. m \<noteq> n \<and> reaches G m n}"
    by blast
  have c: "count_list ups m = (if m \<noteq> n \<and> reaches G m n then 1 else 0)" for m
    using ups(2,3) by (simp add: count_list_distinct)
  have b: "ups = bfs_reverse G [n] [n]"
    using ups(1) assms by (simp add: ancestors_def del: bfs_reverse.simps)
  have e: "expansions G [n] [n] = n # ups"
    unfolding b by (simp add: expansions_queue del: bfs_reverse.simps expansions.simps)
  have "distinct (n # ups)" using ups(2,3) by simp
  with ups(1) c e show ?thesis by (simp del: expansions.simps)
qed

text \<open>
  A graph with the cycle \<open>1 \<rightarrow> 2 \<rightarrow> 1\<close>, a self-loop on 1 and a tributary 3 of 2.
\<close>

theorem ancestors_cycle_once_witness:
  "1 \<in> set (nodes \<lparr>nodes = [1, 2, 3], edges = [(1, 2), (2, 1), (3, 2), (1, 1)]\<rparr>) \<and>
   reaches \<lparr>nodes = [1, 2, 3], edges = [(1, 2), (2, 1), (3, 2), (1, 1)]\<rparr> 1 1 \<and>
   ancestors \<lparr>nodes = [1, 2, 3], edges = [(1, 2), (2, 1), (3, 2), (1, 1)]\<rparr> 1 = Inr [2, 3] \<and>
   count_list [2, 3::int] 2 = 1 \<and> count_list [2, 3::int] 3 = 1 \<and> count_list [2, 3::int] 1 = 0 \<and>
   expansions \<lparr>nodes = [1, 2, 3], edges = [(1, 2), (2, 1), (3, 2), (1, 1)]\<rparr> [1] [1] = [1, 2, 3]"
proof -
  have a: "1 \<in> set (nodes \<lparr>nodes = [1, 2, 3], edges = [(1, 2), (2, 1), (3, 2), (1, 1)]\<rparr>)"
    by simp
  have r: "reaches \<lparr>nodes = [1, 2, 3], edges = [(1, 2), (2, 1), (3, 2), (1, 1)]\<rparr> 1 1"
    by (auto simp: reaches_def)
  from ancestors_cycle_once [OF a] a r show ?thesis
    by (simp add: ancestors_def predecessors_def)
qed

section \<open>Claims about the watershed of one source\<close>

lemma ancestors_upstream:
  assumes "source \<in> set (nodes G)"
  shows "\<exists>ups. ancestors G source = Inr ups \<and> distinct (source # ups) \<and>
           set (source # ups) = upstream G source"
proof -
  from ancestors_set [OF assms] obtain ups where
    ups: "ancestors G source = Inr ups" "distinct ups"
      "set ups = {m. m \<noteq> source \<and> reaches G m source}" by blast
  have "set (source # ups) = upstream G source"
    using ups(3) by (auto simp: upstream_def)
  moreover have "distinct (source # ups)" using ups(2,3) by simp
  ultimately show ?thesis using ups(1) by blast
qed

lemma mean_isin:
  "mean (isin ws col) = of_nat (length (filter (\<lambda>x. x \<in> set col) ws)) / of_nat (length ws)"
  by (simp add: mean_def isin_def filter_map comp_def)

lemma length_filter_all: "length (filter P xs) = length xs \<longleftrightarrow> (\<forall>x \<in> set xs. P x)"
proof -
  have "length (filter P xs) = length xs \<longleftrightarrow> length (filter (\<lambda>x. \<not> P x) xs) = 0"
    using sum_length_filter_compl [of P xs] by arith
  then show ?thesis by (simp add: filter_empty_conv)
qed

lemma card_filter_distinct: "distinct xs \<Longrightarrow> card {x \<in> set xs. P x} = length (filter P xs)"
  using distinct_card [of "filter P xs"] by simp

lemma get_watershed_boundaries_upstream:
  assumes "source \<in> set (nodes G)"
  shows "get_watershed_boundaries U source G catchments =
           Inr (merged_geometry U G catchments source, match_ratio_of G catchments source)"
proof -
  from ancestors_upstream [OF assms] obtain ups where
    ups: "ancestors G source = Inr ups" and d: "distinct (source # ups)"
      and s: "set (source # ups) = upstream G source" by blast
  define ws where "ws = source # ups"
  have dw: "distinct ws" and sw: "upstream G source = set ws"
    using d s by (simp_all add: ws_def)
  have st: "stored catchments n \<longleftrightarrow> n \<in> set (map COMID catchments)" for n
    by (simp add: stored_def)
  have q: "queried_count G source = length ws"
    using dw distinct_card [of ws] by (simp add: queried_count_def sw)
  have m: "matched_count G catchments source =
           length (filter (\<lambda>x. x \<in> set (map COMID catchments)) ws)"
    using card_filter_distinct [OF dw, of "\<lambda>x. x \<in> set (map COMID catchments)"]
    by (simp add: matched_count_def sw st)
  have "mean (isin ws (map COMID catchments)) = match_ratio_of G catchments source"
    by (simp only: mean_isin match_ratio_of_def q m)
  then show ?thesis
    using ups
    by (simp add: get_watershed_boundaries_def Let_def ws_def [symmetric] merged_geometry_def sw
        del: set_simps)
qed

text \<open>
  Claim C3. For every source that is a node of the graph and every catchment frame,
  delineation returns a match ratio equal to \<open>matched_count / queried_count\<close> taken
  over \<open>upstream\<close>, the ancestors with the source added; \<open>queried_count\<close> is at least
  1, the ratio lies between 0 and 1, and it is 1 exactly when every node of \<open>upstream\<close>
  has a stored geometry.
\<close>

theorem match_ratio:
  assumes "source \<in> set (nodes G)"
  shows "\<exists>polygon p. get_watershed_boundaries U source G catchments = Inr (polygon, p) \<and>
           p = of_nat (matched_count G catchments source) / of_nat (queried_count G source) \<and>
           1 \<le> queried_count G source \<and> 0 \<le> p \<and> p \<le> 1 \<and>
           (p = 1 \<longleftrightarrow> (\<forall>n \<in> upstream G source. stored catchments n))"
proof -
  from ancestors_upstream [OF assms] obtain ups where
    ups: "ancestors G source = Inr ups" and d: "distinct (source # ups)"
      and s: "set (source # ups) = upstream G source" by blast
  define ws where "ws = source # ups"
  define k where "k = length (filter (\<lambda>x. x \<in> set (map COMID catchments)) ws)"
  define p where "p = (of_nat k :: rat) / of_nat (length ws)"
  have dw: "distinct ws" and sw: "upstream G source = set ws"
    using d s by (simp_all add: ws_def)
  have q: "queried_count G source = length ws"
    using dw distinct_card [of ws] by (simp add: queried_count_def sw)
  have st: "stored catchments n \<longleftrightarrow> n \<in> set (map COMID catchments)" for n
    by (simp add: stored_def)
  have m: "matched_count G catchments source = k"
    using card_filter_distinct [OF dw, of "\<lambda>x. x \<in> set (map COMID catchments)"]
    by (simp add: matched_count_def k_def sw st)
  have pos: "0 < length ws" by (simp add: ws_def)
  have le: "k \<le> length ws" by (simp add: k_def)
  have res: "get_watershed_boundaries U source G catchments =
      Inr (union_all U (map geometry (filter (\<lambda>r. COMID r \<in> set ws) catchments)), p)"
    using ups mean_isin [of ws "map COMID catchments"]
    by (simp add: get_watershed_boundaries_def Let_def ws_def p_def k_def)
  have p0: "0 \<le> p" by (simp add: p_def)
  have p1: "p \<le> 1" using pos le by (simp add: p_def)
  have "p = 1 \<longleftrightarrow> k = length ws" using pos by (auto simp: p_def)
  also have "\<dots> \<longleftrightarrow> (\<forall>n \<in> set ws. n \<in> set (map COMID catchments))"
    unfolding k_def by (rule length_filter_all)
  also have "\<dots> \<longleftrightarrow> (\<forall>n \<in> upstream G source. stored catchments n)"
    by (simp add: sw st)
  finally have peq: "p = 1 \<longleftrightarrow> (\<forall>n \<in> upstream G source. stored catchments n)" .
  have "p = of_nat (matched_count G catchments source) / of_nat (queried_count G source)"
    by (simp add: p_def m q)
  moreover have "1 \<le> queried_count G source" by (simp add: q ws_def)
  ultimately show ?thesis using res p0 p1 peq by blast
qed

text \<open>
  The example of the specification: edges \<open>(2,1)\<close>, \<open>(3,2)\<close>, \<open>(4,2)\<close>, geometries
  stored for 1, 2 and 3 only; the ratio is \<open>3/4\<close>, and not every upstream node is stored.
\<close>

theorem match_ratio_witness:
  "1 \<in> set (nodes \<lparr>nodes = [1, 2, 3, 4], edges = [(2, 1), (3, 2), (4, 2)]\<rparr>) \<and>
   get_watershed_boundaries (\<lambda>gs. GeometryCollection gs) 1
     \<lparr>nodes = [1, 2, 3, 4], edges = [(2, 1), (3, 2), (4, 2)]\<rparr>
     [\<lparr>COMID = 1, geometry = Polygon (10::nat)\<rparr>, \<lparr>COMID = 2, geometry = Polygon 20\<rparr>,
      \<lparr>COMID = 3, geometry = Polygon 30\<rparr>]
     = Inr (GeometryCollection [Polygon 10, Polygon 20, Polygon 30], 3 / 4) \<and>
   \<not> (\<forall>n \<in> upstream \<lparr>nodes = [1, 2, 3, 4], edges = [(2, 1), (3, 2), (4, 2)]\<rparr> 1.
        stored [\<lparr>COMID = 1, geometry = Polygon (10::nat)\<rparr>,
                \<lparr>COMID = 2, geometry = Polygon 20\<rparr>, \<lparr>COMID = 3, geometry = Polygon 30\<rparr>] n)"
proof -
  let ?G = "\<lparr>nodes = [1, 2, 3, 4], edges = [(2, 1), (3, 2), (4, 2)]\<rparr>"
  let ?C = "[\<lparr>COMID = 1, geometry = Polygon (10::nat)\<rparr>, \<lparr>COMID = 2, geometry = Polygon 20\<rparr>,
             \<lparr>COMID = 3, geometry = Polygon 30\<rparr>]"
  have a: "1 \<in> set (nodes ?G)" by simp
  have e: "get_watershed_boundaries (\<lambda>gs. GeometryCollection gs) 1 ?G ?C
           = Inr (GeometryCollection [Polygon 10, Polygon 20, Polygon 30], 3 / 4)"
    by (simp add: get_watershed_boundaries_def ancestors_def predecessors_def mean_def
        isin_def union_all_def)
  from match_ratio [OF a, of "\<lambda>gs. GeometryCollection gs" ?C] e
  have "\<not> (\<forall>n \<in> upstream ?G 1. stored ?C n)" by auto
  with a e show ?thesis by blast
qed

text \<open>
  Claim C7. For every source that is a node of the graph, when no id of \<open>upstream\<close>
  has a stored geometry, delineation returns the empty geometry and the match ratio 0;
  it does not fail.
\<close>

theorem no_geometry_matched:
  assumes "source \<in> set (nodes G)"
    and "\<forall>n \<in> upstream G source. \<not> stored catchments n"
  shows "get_watershed_boundaries U source G catchments = Inr (empty_geometry, 0)"
proof -
  from ancestors_upstream [OF assms(1)] obtain ups where
    ups: "ancestors G source = Inr ups"
      and s: "set (source # ups) = upstream G source" by blast
  have no: "\<forall>r \<in> set catchments. COMID r \<notin> set (source # ups)"
    using assms(2) s by (auto simp: stored_def)
  then have "filter (\<lambda>r. COMID r \<in> set (source # ups)) catchments = []"
    by (simp add: filter_empty_conv)
  moreover have "filter (\<lambda>x. x \<in> set (map COMID catchments)) (source # ups) = []"
    using no by (auto simp: filter_empty_conv)
  ultimately show ?thesis
    using ups mean_isin [of "source # ups" "map COMID catchments"]
    by (simp add: get_watershed_boundaries_def Let_def union_all_def)
qed

text \<open>The same graph with a catchment frame that only knows the foreign id 9.\<close>

theorem no_geometry_matched_witness:
  "1 \<in> set (nodes \<lparr>nodes = [1, 2, 3, 4], edges = [(2, 1), (3, 2), (4, 2)]\<rparr>) \<and>
   \<not> (\<exists>n \<in> upstream \<lparr>nodes = [1, 2, 3, 4], edges = [(2, 1), (3, 2), (4, 2)]\<rparr> 1.
      stored [\<lparr>COMID = 9, geometry = Polygon (90::nat)\<rparr>] n) \<and>
   get_watershed_boundaries (\<lambda>gs. GeometryCollection gs) 1
     \<lparr>nodes = [1, 2, 3, 4], edges = [(2, 1), (3, 2), (4, 2)]\<rparr>
     [\<lparr>COMID = 9, geometry = Polygon (90::nat)\<rparr>] = Inr (GeometryCollection [], 0)"
proof -
  let ?G = "\<lparr>nodes = [1, 2, 3, 4], edges = [(2, 1), (3, 2), (4, 2)]\<rparr>"
  let ?C = "[\<lparr>COMID = 9, geometry = Polygon (90::nat)\<rparr>]"
  have a: "1 \<in> set (nodes ?G)" by simp
  have "ancestors ?G 1 = Inr [2, 3, 4]"
    by (simp add: ancestors_def predecessors_def)
  with ancestors_upstream [OF a] have "upstream ?G 1 = {1, 2, 3, 4}" by auto
  then have b: "\<forall>n \<in> upstream ?G 1. \<not> stored ?C n"
    by (simp add: stored_def)
  from no_geometry_matched [OF a b, of "\<lambda>gs. GeometryCollection gs"] a b
  show ?thesis by (simp add: empty_geometry_def del: bex_simps)
qed

section \<open>Claims about the construction of the graph\<close>

lemma flow_edges_filter: "flow_edges ft = filter (\<lambda>r. snd r \<noteq> 0) ft"
  by (induction ft) (simp_all add: flow_edges_def terminal_flows_def)

lemma add_node_nodes: "set (nodes (add_node G n)) = insert n (set (nodes G))"
  by (auto simp: add_node_def)

lemma add_node_edges: "edges (add_node G n) = edges G"
  by (simp add: add_node_def)

lemma add_nodes_from_nodes: "set (nodes (add_nodes_from G ns)) = set (nodes G) \<union> set ns"
  unfolding add_nodes_from_def
  by (induction ns arbitrary: G) (auto simp: add_node_nodes)

lemma add_nodes_from_edges: "edges (add_nodes_from G ns) = edges G"
  unfolding add_nodes_from_def
  by (induction ns arbitrary: G) (auto simp: add_node_edges)

lemma add_edge_edges: "set (edges (add_edge G e)) = insert e (set (edges G))"
  by (auto simp: add_edge_def Let_def add_node_edges)

lemma add_edge_nodes:
  "set (nodes (add_edge G e)) = insert (fst e) (insert (snd e) (set (nodes G)))"
  by (auto simp: add_edge_def Let_def add_node_nodes)

lemma add_edges_from_edges: "set (edges (add_edges_from G es)) = set (edges G) \<union> set es"
  unfolding add_edges_from_def
  by (induction es arbitrary: G) (auto simp: add_edge_edges)

lemma add_edges_from_nodes:
  "set (nodes (add_edges_from G es)) = set (nodes G) \<union> fst ` set es \<union> snd ` set es"
  unfolding add_edges_from_def
  by (induction es arbitrary: G) (auto simp: add_edge_nodes)

lemma build_graph_edges: "set (edges (build_graph ft)) = {r \<in> set ft. snd r \<noteq> 0}"
  by (auto simp: build_graph_def Let_def add_edges_from_edges add_nodes_from_edges
      flow_edges_filter DiGraph_def)

lemma build_graph_nodes:
  "set (nodes (build_graph ft)) = fst ` set ft \<union> snd ` {r \<in> set ft. snd r \<noteq> 0}"
  by (auto simp: build_graph_def Let_def add_edges_from_nodes add_nodes_from_nodes
      flow_edges_filter DiGraph_def)

text \<open>
  Claim C4, as stated: dropping the rows whose downstream id is 0 keeps the value 0
  from ever being an endpoint of an inserted edge. A row \<open>(0, 5)\<close> has a downstream id
  other than 0, so it is kept, and its edge has 0 as its upstream end.
\<close>

theorem sentinel_row_as_upstream_end:
  "snd (0::int, 5::int) \<noteq> 0 \<and> (0, 5) \<in> set (edges (build_graph [(0, 5)])) \<and>
   0 \<in> set (nodes (build_graph [(0, 5)]))"
  by (simp add: build_graph_def flow_edges_def terminal_flows_def add_edges_from_def
      add_nodes_from_def add_edge_def add_node_def DiGraph_def)

text \<open>
  Claim C4, amended. Graph construction drops every row whose downstream id is 0
  before the edges are inserted, and the edges of the graph are exactly the remaining
  rows, as they are. So 0 is never the downstream end of an edge; it is a node of the
  graph only if the flow table lists it as a comid; and when the flow table does not
  list it as a comid, it is no endpoint of any edge.
\<close>

theorem build_graph_drops_terminal:
  "set (edges (build_graph ft)) = {r \<in> set ft. snd r \<noteq> 0} \<and>
   (\<forall>e \<in> set (edges (build_graph ft)). snd e \<noteq> 0) \<and>
   (0 \<in> set (nodes (build_graph ft)) \<longleftrightarrow> 0 \<in> fst ` set ft) \<and>
   (0 \<notin> fst ` set ft \<longrightarrow> (\<forall>e \<in> set (edges (build_graph ft)). fst e \<noteq> 0))"
proof -
  have "0 \<in> set (nodes (build_graph ft)) \<longleftrightarrow> 0 \<in> fst ` set ft"
    unfolding build_graph_nodes by force
  moreover have "0 \<notin> fst ` set ft \<longrightarrow> (\<forall>e \<in> set (edges (build_graph ft)). fst e \<noteq> 0)"
    unfolding build_graph_edges by force
  ultimately show ?thesis
    by (simp add: build_graph_edges)
qed

text \<open>
  The example network with its outlet row \<open>(1, 0)\<close>: the row is dropped, and 0 is
  neither a node nor an endpoint.
\<close>

theorem build_graph_drops_terminal_witness:
  "build_graph [(2, 1), (3, 2), (4, 2), (1, 0)] =
     \<lparr>nodes = [2, 3, 4, 1], edges = [(2, 1), (3, 2), (4, 2)]\<rparr> \<and>
   0 \<notin> fst ` set [(2::int, 1::int), (3, 2), (4, 2), (1, 0)] \<and>
   0 \<notin> set (nodes (build_graph [(2, 1), (3, 2), (4, 2), (1, 0)])) \<and>
   0 \<notin> fst ` set (edges (build_graph [(2, 1), (3, 2), (4, 2), (1, 0)])) \<and>
   0 \<notin> snd ` set (edges (build_graph [(2, 1), (3, 2), (4, 2), (1, 0)]))"
proof -
  have e: "build_graph [(2, 1), (3, 2), (4, 2), (1, 0)] =
     \<lparr>nodes = [2, 3, 4, 1], edges = [(2, 1), (3, 2), (4, 2)]\<rparr>"
    by code_simp
  have h: "0 \<notin> fst ` set [(2::int, 1::int), (3, 2), (4, 2), (1, 0)]" by simp
  note t = build_graph_drops_terminal [of "[(2, 1), (3, 2), (4, 2), (1, 0)]"]
  have n: "0 \<notin> set (nodes (build_graph [(2, 1), (3, 2), (4, 2), (1, 0)]))"
    using t h by blast
  have "\<forall>e \<in> set (edges (build_graph [(2, 1), (3, 2), (4, 2), (1, 0)])). fst e \<noteq> 0 \<and> snd e \<noteq> 0"
    using t h by blast
  then have "0 \<notin> fst ` set (edges (build_graph [(2, 1), (3, 2), (4, 2), (1, 0)]))"
    and "0 \<notin> snd ` set (edges (build_graph [(2, 1), (3, 2), (4, 2), (1, 0)]))"
    by force+
  with e h n show ?thesis by blast
qed

section \<open>Claims about the loop over the gages\<close>

lemma get_watershed_boundaries_unknown:
  "source \<notin> set (nodes G) \<Longrightarrow>
   get_watershed_boundaries U source G catchments = Inl UnknownNodeError"
  by (simp add: get_watershed_boundaries_def ancestors_def)

lemma loc_unique:
  assumes "distinct (map fst (xs @ (i, w) # ys))"
  shows "loc (xs @ (i, w) # ys) i = [w]"
proof -
  have "filter (\<lambda>x. fst x = i) xs = []" "filter (\<lambda>x. fst x = i) ys = []"
    using assms by (auto simp: filter_empty_conv)
  then show ?thesis by (simp add: loc_def)
qed

lemma set_loc_unique:
  assumes "distinct (map fst (xs @ (i, w) # ys))"
  shows "set_loc (xs @ (i, w) # ys) i g p =
         xs @ (i, w\<lparr>geometry := g, proportion_matched := Some p\<rparr>) # ys"
proof -
  let ?f = "\<lambda>x. if fst x = i
                 then (fst x, (snd x)\<lparr>geometry := g, proportion_matched := Some p\<rparr>) else x"
  have "\<forall>x \<in> set xs. fst x \<noteq> i" "\<forall>x \<in> set ys. fst x \<noteq> i"
    using assms by auto
  then have "map ?f xs = xs" "map ?f ys = ys"
    by (simp_all add: map_idI)
  then show ?thesis by (simp add: set_loc_def)
qed

lemma delineate_all_stops:
  assumes "distinct (map fst (done @ pre @ (i, w) # post))"
    and "\<forall>x \<in> set pre. COMID (snd x) \<in> set (nodes G)"
    and "COMID w \<notin> set (nodes G)"
  shows "delineate_all U G catchments (done @ pre @ (i, w) # post)
           (map fst pre @ i # map fst post) out =
         (done @ map (delineated U G catchments) pre @ (i, w) # post,
          out @ map (printed_line G catchments) pre, Some UnknownNodeError)"
  using assms(1,2)
proof (induction pre arbitrary: "done" out)
  case Nil
  then have "loc (done @ (i, w) # post) i = [w]" by (simp add: loc_unique)
  then show ?case
    using get_watershed_boundaries_unknown [OF assms(3), of U catchments] by simp
next
  case (Cons x pre)
  obtain l r where x: "x = (l, r)" by (cases x)
  define r' where "r' = r\<lparr>geometry := merged_geometry U G catchments (COMID r),
                           proportion_matched := Some (match_ratio_of G catchments (COMID r))\<rparr>"
  have d: "distinct (map fst (done @ (l, r) # (pre @ (i, w) # post)))"
    using Cons.prems(1) x by simp
  have lo: "loc (done @ (l, r) # (pre @ (i, w) # post)) l = [r]"
    using d by (rule loc_unique)
  have sl: "set_loc (done @ (l, r) # (pre @ (i, w) # post)) l
              (merged_geometry U G catchments (COMID r)) (match_ratio_of G catchments (COMID r))
            = done @ (l, r') # (pre @ (i, w) # post)"
    unfolding r'_def using d by (rule set_loc_unique)
  have "COMID r \<in> set (nodes G)" using Cons.prems(2) x by simp
  then have g: "get_watershed_boundaries U (COMID r) G catchments =
      Inr (merged_geometry U G catchments (COMID r), match_ratio_of G catchments (COMID r))"
    by (rule get_watershed_boundaries_upstream)
  have d': "distinct (map fst ((done @ [(l, r')]) @ pre @ (i, w) # post))"
    using d by simp
  have k: "\<forall>x \<in> set pre. COMID (snd x) \<in> set (nodes G)"
    using Cons.prems(2) by simp
  have step: "delineate_all U G catchments (done @ (l, r) # (pre @ (i, w) # post))
                (l # map fst pre @ i # map fst post) out =
              delineate_all U G catchments (done @ (l, r') # (pre @ (i, w) # post))
                (map fst pre @ i # map fst post) (out @ [(site_no r, match_ratio_of G catchments (COMID r))])"
    by (simp add: lo g sl)
  have "delineate_all U G catchments ((done @ [(l, r')]) @ pre @ (i, w) # post)
          (map fst pre @ i # map fst post)
          (out @ [(site_no r, match_ratio_of G catchments (COMID r))]) =
        ((done @ [(l, r')]) @ map (delineated U G catchments) pre @ (i, w) # post,
         (out @ [(site_no r, match_ratio_of G catchments (COMID r))]) @
           map (printed_line G catchments) pre, Some UnknownNodeError)"
    using Cons.IH [OF d' k] .
  with step show ?case
    by (simp add: x delineated_def printed_line_def r'_def)
qed

text \<open>
  Claim C5, as stated: when the source id of one query point is absent from the graph,
  the failure is handled for that item and the batch goes on with the remaining points.
  With gage A on the unknown id 5 and gage B on node 1, the run ends at A with the
  \<open>UnknownNodeError\<close>: B is never processed (its share matched is still unset) and
  nothing was printed.
\<close>

theorem batch_aborted_by_unknown_node:
  "delineate_gages GeometryCollection \<lparr>nodes = [1], edges = []\<rparr>
     [\<lparr>COMID = 1, geometry = Polygon (10::nat)\<rparr>]
     [(0, \<lparr>COMID = 5, geometry = Point 50, site_no = ''A'', proportion_matched = None\<rparr>),
      (1, \<lparr>COMID = 1, geometry = Point 11, site_no = ''B'', proportion_matched = None\<rparr>)]
   = ([(0, \<lparr>COMID = 5, geometry = Point 50, site_no = ''A'', proportion_matched = None\<rparr>),
       (1, \<lparr>COMID = 1, geometry = Point 11, site_no = ''B'', proportion_matched = None\<rparr>)],
      [], Some UnknownNodeError)"
  by (simp add: delineate_gages_def loc_def get_watershed_boundaries_def ancestors_def)

text \<open>
  Claim C5, amended. The loop has no handler. For a frame of query points whose index
  labels are unique, when the source id of a query point is absent from the graph, the
  \<open>UnknownNodeError\<close> ends the whole run at the first such point. The points before it
  have been processed, in order: each holds the merged geometry of the stored
  catchments upstream of its source and its match ratio, and one line was printed for
  each. That point and all points after it are left unprocessed, with no share
  matched, and no tally of failures is produced.
\<close>

theorem batch_stops_at_unknown_node:
  assumes "distinct (map fst (pre @ (i, w) # post))"
    and "\<forall>x \<in> set pre. COMID (snd x) \<in> set (nodes G)"
    and "COMID w \<notin> set (nodes G)"
  shows "delineate_gages U G catchments (pre @ (i, w) # post) =
           (map (\<lambda>x. (fst x,
                   (snd x)\<lparr>geometry := merged_geometry U G catchments (COMID (snd x)),
                           proportion_matched :=
                             Some (match_ratio_of G catchments (COMID (snd x)))\<rparr>)) pre @
            map (\<lambda>x. (fst x, (snd x)\<lparr>proportion_matched := None\<rparr>)) ((i, w) # post),
            map (\<lambda>x. (site_no (snd x), match_ratio_of G catchments (COMID (snd x)))) pre,
            Some UnknownNodeError)"
proof -
  let ?reset = "\<lambda>x::int \<times> 'a station. (fst x, (snd x)\<lparr>proportion_matched := None\<rparr>)"
  have fst_reset: "map fst (map ?reset xs) = map fst xs" for xs
    by simp
  have d: "distinct (map fst ([] @ map ?reset pre @
             (i, w\<lparr>proportion_matched := None\<rparr>) # map ?reset post))"
    using assms(1) by (simp add: comp_def)
  have k: "\<forall>x \<in> set (map ?reset pre). COMID (snd x) \<in> set (nodes G)"
    using assms(2) by simp
  have u: "COMID (w\<lparr>proportion_matched := None\<rparr>) \<notin> set (nodes G)"
    using assms(3) by simp
  have "delineate_all U G catchments
          ([] @ map ?reset pre @ (i, w\<lparr>proportion_matched := None\<rparr>) # map ?reset post)
          (map fst (map ?reset pre) @ i # map fst (map ?reset post)) [] =
        ([] @ map (delineated U G catchments) (map ?reset pre) @
           (i, w\<lparr>proportion_matched := None\<rparr>) # map ?reset post,
         [] @ map (printed_line G catchments) (map ?reset pre), Some UnknownNodeError)"
    using d k u by (rule delineate_all_stops)
  then show ?thesis
    by (simp add: delineate_gages_def Let_def comp_def delineated_def printed_line_def)
qed

text \<open>
  Gage B on node 1 is processed, the run ends at gage A on the unknown id 5, and gage C
  is left untouched although its node is in the graph. The merged geometry and the
  match ratio of B are those of the aggregator.
\<close>

theorem batch_stops_at_unknown_node_witness:
  "distinct (map fst
     [(0::int, \<lparr>COMID = 1, geometry = Point (11::nat), site_no = ''B'', proportion_matched = None\<rparr>),
      (1, \<lparr>COMID = 5, geometry = Point 50, site_no = ''A'', proportion_matched = None\<rparr>),
      (2, \<lparr>COMID = 1, geometry = Point 12, site_no = ''C'', proportion_matched = None\<rparr>)]) \<and>
   1 \<in> set (nodes \<lparr>nodes = [1], edges = []\<rparr>) \<and> 5 \<notin> set (nodes \<lparr>nodes = [1], edges = []\<rparr>) \<and>
   delineate_gages GeometryCollection \<lparr>nodes = [1], edges = []\<rparr>
     [\<lparr>COMID = 1, geometry = Polygon (10::nat)\<rparr>]
     [(0, \<lparr>COMID = 1, geometry = Point 11, site_no = ''B'', proportion_matched = None\<rparr>),
      (1, \<lparr>COMID = 5, geometry = Point 50, site_no = ''A'', proportion_matched = None\<rparr>),
      (2, \<lparr>COMID = 1, geometry = Point 12, site_no = ''C'', proportion_matched = None\<rparr>)]
   = ([(0, \<lparr>COMID = 1, geometry = GeometryCollection [Polygon 10], site_no = ''B'',
            proportion_matched = Some 1\<rparr>),
       (1, \<lparr>COMID = 5, geometry = Point 50, site_no = ''A'', proportion_matched = None\<rparr>),
       (2, \<lparr>COMID = 1, geometry = Point 12, site_no = ''C'', proportion_matched = None\<rparr>)],
      [(''B'', 1)], Some UnknownNodeError) \<and>
   merged_geometry GeometryCollection \<lparr>nodes = [1], edges = []\<rparr>
     [\<lparr>COMID = 1, geometry = Polygon (10::nat)\<rparr>] 1 = GeometryCollection [Polygon 10] \<and>
   match_ratio_of \<lparr>nodes = [1], edges = []\<rparr> [\<lparr>COMID = 1, geometry = Polygon (10::nat)\<rparr>] 1 = 1"
proof -
  let ?G = "\<lparr>nodes = [1], edges = []\<rparr>"
  let ?C = "[\<lparr>COMID = 1, geometry = Polygon (10::nat)\<rparr>]"
  let ?b = "\<lparr>COMID = 1, geometry = Point (11::nat), site_no = ''B'', proportion_matched = None\<rparr>"
  let ?a = "\<lparr>COMID = 5, geometry = Point (50::nat), site_no = ''A'', proportion_matched = None\<rparr>"
  let ?c = "\<lparr>COMID = 1, geometry = Point (12::nat), site_no = ''C'', proportion_matched = None\<rparr>"
  have h1: "distinct (map fst ([(0::int, ?b)] @ (1, ?a) # [(2, ?c)]))" by simp
  have h2: "\<forall>x \<in> set [(0::int, ?b)]. COMID (snd x) \<in> set (nodes ?G)" by simp
  have h3: "COMID ?a \<notin> set (nodes ?G)" by simp
  note t = batch_stops_at_unknown_node [OF h1 h2 h3, of GeometryCollection ?C]
  have e: "delineate_gages GeometryCollection ?G ?C ([(0::int, ?b)] @ (1, ?a) # [(2, ?c)]) =
      ([(0, \<lparr>COMID = 1, geometry = GeometryCollection [Polygon 10], site_no = ''B'',
             proportion_matched = Some 1\<rparr>), (1, ?a), (2, ?c)],
       [(''B'', 1)], Some UnknownNodeError)"
    by (simp add: delineate_gages_def loc_def set_loc_def get_watershed_boundaries_def
        ancestors_def predecessors_def mean_def isin_def union_all_def)
  from trans [OF t [symmetric] e]
  have "merged_geometry GeometryCollection ?G ?C 1 = GeometryCollection [Polygon 10]"
    and "match_ratio_of ?G ?C 1 = 1"
    by simp_all
  with e h1 show ?thesis by simp
qed

text \<open>
  A station that falls into two catchment polygons gets two rows with one label by the
  join of line 141; the loop then ends with a \<^verbatim>\<open>TypeError\<close> at that label, before
  any row is processed.
\<close>

lemma delineate_gages_repeated_label:
  "delineate_gages GeometryCollection \<lparr>nodes = [1, 2], edges = [(2, 1)]\<rparr>
     [\<lparr>COMID = 1, geometry = Polygon (10::nat)\<rparr>, \<lparr>COMID = 2, geometry = Polygon 20\<rparr>]
     [(0, \<lparr>COMID = 1, geometry = Point 11, site_no = ''B'', proportion_matched = None\<rparr>),
      (0, \<lparr>COMID = 2, geometry = Point 11, site_no = ''B'', proportion_matched = None\<rparr>)]
   = ([(0, \<lparr>COMID = 1, geometry = Point 11, site_no = ''B'', proportion_matched = None\<rparr>),
       (0, \<lparr>COMID = 2, geometry = Point 11, site_no = ''B'', proportion_matched = None\<rparr>)],
      [], Some TypeError)"
  by (simp add: delineate_gages_def loc_def)

section \<open>The branches of the layer writer\<close>

lemma set_geometry_map:
  "set_geometry rows (map f rows) = map (\<lambda>r. r\<lparr>geometry := f r\<rparr>) rows"
  by (induction rows) (simp_all add: set_geometry_def)

lemma set_geom_types:
  "set (sort (unique_values (map (\<lambda>r. geom_type (geometry r)) rows))) =
   (\<lambda>r. geom_type (geometry r)) ` set rows"
  by (simp add: unique_values_def)

lemma multipolygon_before_polygon: "sorted [''MultiPolygon'', ''Polygon'']"
  by code_simp

lemma geom_types_polygonal:
  assumes "(\<lambda>r. geom_type (geometry r)) ` set rows = {''Polygon'', ''MultiPolygon''}"
  shows "sort (unique_values (map (\<lambda>r. geom_type (geometry r)) rows)) =
         [''MultiPolygon'', ''Polygon'']"
proof (rule sorted_distinct_set_unique)
  show "sorted (sort (unique_values (map (\<lambda>r. geom_type (geometry r)) rows)))"
    by (rule sorted_sort)
  show "distinct (sort (unique_values (map (\<lambda>r. geom_type (geometry r)) rows)))"
    by (simp add: unique_values_def)
  show "sorted [''MultiPolygon'', ''Polygon'']" by (rule multipolygon_before_polygon)
  show "distinct [''MultiPolygon'', ''Polygon'']" by simp
  have "set [''MultiPolygon'', ''Polygon''] = {''Polygon'', ''MultiPolygon''}"
    by (simp only: list.set insert_commute)
  then show "set (sort (unique_values (map (\<lambda>r. geom_type (geometry r)) rows))) =
        set [''MultiPolygon'', ''Polygon'']"
    using assms by (simp only: set_geom_types)
qed

lemma map_changes:
  assumes "r \<in> set rows" and "f r \<noteq> r"
  shows "map f rows \<noteq> rows"
proof
  assume "map f rows = rows"
  then have "map f rows = map (\<lambda>r. r) rows" by simp
  then have "f r = r" using assms(1) by (simp only: map_eq_conv)
  with assms(2) show False by simp
qed

lemma upcast_single_member:
  "(if geom_type g = ''Polygon'' then single_member g else g) = single_member g"
  by (cases g) simp_all


lemma single_member_polygon: "geom_type g = ''Polygon'' \<Longrightarrow> single_member g \<noteq> g"
  by (cases g) simp_all

lemma bex_image_swap: "(\<exists>x \<in> A. x \<in> f ` S) \<longleftrightarrow> (\<exists>r \<in> S. f r \<in> A)"
  by blast

lemma polygonal_present:
  "(\<exists>x \<in> set [''Polygon'', ''MultiPolygon''].
      x \<in> set (sort (unique_values (map (\<lambda>r. geom_type (geometry r)) rows)))) \<longleftrightarrow>
   (\<exists>r \<in> set rows. geom_type (geometry r) \<in> {''Polygon'', ''MultiPolygon''})"
  unfolding set_geom_types by (simp only: list.set bex_image_swap)


lemma driver_accepts_iff:
  "driver_accepts rows \<longleftrightarrow> (\<exists>t. (\<lambda>r. geom_type (geometry r)) ` set rows = {t})"
proof -
  have "length (remdups (map (\<lambda>r. geom_type (geometry r)) rows)) =
        card ((\<lambda>r. geom_type (geometry r)) ` set rows)"
    using length_remdups_card_conv [of "map (\<lambda>r. geom_type (geometry r)) rows"] by simp
  then show ?thesis
    by (simp add: driver_accepts_def card_1_singleton_iff)
qed

lemma driver_accepts_uniform:
  assumes "rows \<noteq> []" and "\<forall>r \<in> set rows. geom_type (geometry r) = t"
  shows "driver_accepts rows"
proof -
  from assms(1) obtain r where "r \<in> set rows" by (cases rows) auto
  with assms(2) have "(\<lambda>r. geom_type (geometry r)) ` set rows = {t}" by auto
  then show ?thesis unfolding driver_accepts_iff by (rule exI)
qed

lemma image_insert_nonempty: "f ` set rows = insert a A \<Longrightarrow> rows \<noteq> []"
  by auto

lemma single_member_type:
  "geom_type g \<in> {''Polygon'', ''MultiPolygon''} \<Longrightarrow>
   geom_type (single_member g) = ''MultiPolygon''"
  by (cases g) simp_all

lemma write_centroids:
  assumes "frames w gdf = Some rows"
    and "\<exists>r \<in> set rows. geom_type (geometry r) \<in> {''Polygon'', ''MultiPolygon''}"
  shows "write_geodatabase cen gdf filepath layer_name True w =
         Inr (w\<lparr>frames := (frames w)(gdf \<mapsto>
                  map (\<lambda>r. r\<lparr>geometry := centroid cen (geometry r)\<rparr>) rows),
                files := files w @ [((filepath, layer_name),
                  map (\<lambda>r. r\<lparr>geometry := centroid cen (geometry r)\<rparr>) rows)]\<rparr>)"
proof -
  have p: "\<exists>x \<in> set [''Polygon'', ''MultiPolygon''].
      x \<in> set (sort (unique_values (map (\<lambda>r. geom_type (geometry r)) rows)))"
    unfolding polygonal_present by (rule assms(2))
  from assms(2) have "rows \<noteq> []" by auto
  then have "map (\<lambda>r. r\<lparr>geometry := centroid cen (geometry r)\<rparr>) rows \<noteq> []" by simp
  moreover have "\<forall>r \<in> set (map (\<lambda>r. r\<lparr>geometry := centroid cen (geometry r)\<rparr>) rows).
      geom_type (geometry r) = ''Point''"
    by (simp add: centroid_def)
  ultimately have d: "driver_accepts (map (\<lambda>r. r\<lparr>geometry := centroid cen (geometry r)\<rparr>) rows)"
    by (rule driver_accepts_uniform)
  show ?thesis
    using assms(1) p d
    by (simp add: write_geodatabase_def Let_def to_file_def set_geometry_map
        del: set_simps bex_simps)
qed


lemma write_upcast:
  assumes "frames w gdf = Some rows"
    and "(\<lambda>r. geom_type (geometry r)) ` set rows = {''Polygon'', ''MultiPolygon''}"
  shows "write_geodatabase cen gdf filepath layer_name False w =
         Inr (w\<lparr>stdout := stdout w @
                  [''warning: multiple geometry types in geodataframe'',
                   ''upcasting polygons to multipolygons to achieve consistency''],
                frames := (frames w)(gdf \<mapsto>
                  map (\<lambda>r. r\<lparr>geometry := single_member (geometry r)\<rparr>) rows),
                files := files w @ [((filepath, layer_name),
                  map (\<lambda>r. r\<lparr>geometry := single_member (geometry r)\<rparr>) rows)]\<rparr>)"
proof -
  note g = geom_types_polygonal [OF assms(2)]
  from assms(2) have "rows \<noteq> []" by (rule image_insert_nonempty)
  then have "map (\<lambda>r. r\<lparr>geometry := single_member (geometry r)\<rparr>) rows \<noteq> []" by simp
  moreover have "\<forall>r \<in> set (map (\<lambda>r. r\<lparr>geometry := single_member (geometry r)\<rparr>) rows).
      geom_type (geometry r) = ''MultiPolygon''"
  proof -
    have "geom_type (single_member (geometry r)) = ''MultiPolygon''" if "r \<in> set rows" for r
    proof (rule single_member_type)
      from that have "geom_type (geometry r) \<in> (\<lambda>r. geom_type (geometry r)) ` set rows"
        by (rule imageI)
      then show "geom_type (geometry r) \<in> {''Polygon'', ''MultiPolygon''}"
        by (simp only: assms(2))
    qed
    then show ?thesis by simp
  qed
  ultimately have d: "driver_accepts (map (\<lambda>r. r\<lparr>geometry := single_member (geometry r)\<rparr>) rows)"
    by (rule driver_accepts_uniform)
  show ?thesis
    using assms(1) d
    by (simp add: write_geodatabase_def Let_def g to_file_def print_def
        upcast_single_member set_geometry_map)
qed


lemma set_geometry_changes:
  assumes "r \<in> set rows" and "f (geometry r) \<noteq> geometry r"
  shows "map (\<lambda>r. r\<lparr>geometry := f (geometry r)\<rparr>) rows \<noteq> rows"
proof (rule map_changes [OF assms(1)])
  show "r\<lparr>geometry := f (geometry r)\<rparr> \<noteq> r"
  proof
    assume "r\<lparr>geometry := f (geometry r)\<rparr> = r"
    then have "geometry (r\<lparr>geometry := f (geometry r)\<rparr>) = geometry r" by simp
    with assms(2) show False by simp
  qed
qed

lemma centroid_changes_polygonal:
  "geom_type g \<in> {''Polygon'', ''MultiPolygon''} \<Longrightarrow> centroid cen g \<noteq> g"
  by (cases g) (simp_all add: centroid_def)

section \<open>Claims about the layer writer\<close>




text \<open>
  Claim C10, as stated: whenever the geometry types are exactly Polygon and
  MultiPolygon, the caller's Polygon geometries are replaced by single-member
  MultiPolygons. With \<open>polygons_as_points\<close> true the first branch is taken instead, and
  the caller's polygon and multi-polygon both become points.
\<close>

theorem centroids_replace_polygons:
  "write_geodatabase (\<lambda>g. 0) 0 ''out.gdb'' ''watersheds'' True
     \<lparr>frames = [0 \<mapsto> [\<lparr>COMID = 1, geometry = Polygon (7::nat)\<rparr>,
                         \<lparr>COMID = 2, geometry = MultiPolygon [8, 9]\<rparr>]],
      files = [], stdout = []\<rparr>
   = Inr \<lparr>frames = [0 \<mapsto> [\<lparr>COMID = 1, geometry = Point 0\<rparr>, \<lparr>COMID = 2, geometry = Point 0\<rparr>]],
          files = [((''out.gdb'', ''watersheds''),
                    [\<lparr>COMID = 1, geometry = Point 0\<rparr>, \<lparr>COMID = 2, geometry = Point 0\<rparr>])],
          stdout = []\<rparr> \<and>
   (\<lambda>r. geom_type (geometry r)) `
      set [\<lparr>COMID = 1, geometry = Polygon (7::nat)\<rparr>, \<lparr>COMID = 2, geometry = MultiPolygon [8, 9]\<rparr>]
     = {''Polygon'', ''MultiPolygon''}"
proof -
  let ?rows = "[\<lparr>COMID = 1, geometry = Polygon (7::nat)\<rparr>,
                \<lparr>COMID = 2, geometry = MultiPolygon [8, 9]\<rparr>]"
  let ?w = "\<lparr>frames = [0 \<mapsto> ?rows], files = [], stdout = []\<rparr>"
  have f: "frames ?w 0 = Some ?rows" by simp
  have p: "\<exists>r \<in> set ?rows. geom_type (geometry r) \<in> {''Polygon'', ''MultiPolygon''}" by simp
  from write_centroids [OF f p, of "\<lambda>g. 0" "''out.gdb''" "''watersheds''"]
  show ?thesis by (simp add: centroid_def)
qed

text \<open>
  Claim C10, amended. \<open>write_geodatabase\<close> mutates the geodataframe of its caller in
  place. When \<open>polygons_as_points\<close> is true and some geometry is a Polygon or a
  MultiPolygon, the caller's geometry column is replaced by centroids. When
  \<open>polygons_as_points\<close> is false and the geometry types are exactly Polygon and
  MultiPolygon, the caller's Polygon geometries are replaced by single-member
  MultiPolygons and the other geometries are kept. In both cases the caller's data is
  not left unchanged.
\<close>

theorem write_geodatabase_mutates_caller:
  assumes "frames w gdf = Some rows"
  shows "(polygons_as_points \<and>
            (\<exists>r \<in> set rows. geom_type (geometry r) \<in> {''Polygon'', ''MultiPolygon''}) \<longrightarrow>
          (\<exists>w'. write_geodatabase cen gdf filepath layer_name polygons_as_points w = Inr w' \<and>
                frames w' gdf = Some (map (\<lambda>r. r\<lparr>geometry := centroid cen (geometry r)\<rparr>) rows) \<and>
                frames w' gdf \<noteq> frames w gdf)) \<and>
         (\<not> polygons_as_points \<and>
            (\<lambda>r. geom_type (geometry r)) ` set rows = {''Polygon'', ''MultiPolygon''} \<longrightarrow>
          (\<exists>w'. write_geodatabase cen gdf filepath layer_name polygons_as_points w = Inr w' \<and>
                frames w' gdf = Some (map (\<lambda>r. r\<lparr>geometry := single_member (geometry r)\<rparr>) rows) \<and>
                frames w' gdf \<noteq> frames w gdf))"
proof (intro conjI impI)
  assume a: "polygons_as_points \<and>
     (\<exists>r \<in> set rows. geom_type (geometry r) \<in> {''Polygon'', ''MultiPolygon''})"
  then obtain r where r: "r \<in> set rows"
    "geom_type (geometry r) \<in> {''Polygon'', ''MultiPolygon''}" by blast
  from r(2) have "centroid cen (geometry r) \<noteq> geometry r"
    by (rule centroid_changes_polygonal)
  with r(1) have "map (\<lambda>r. r\<lparr>geometry := centroid cen (geometry r)\<rparr>) rows \<noteq> rows"
    by (rule set_geometry_changes)
  moreover from a have "\<exists>r \<in> set rows. geom_type (geometry r) \<in> {''Polygon'', ''MultiPolygon''}"
    by (rule conjunct2)
  note write_centroids [OF assms this, of cen filepath layer_name]
  ultimately show "\<exists>w'. write_geodatabase cen gdf filepath layer_name polygons_as_points w = Inr w' \<and>
      frames w' gdf = Some (map (\<lambda>r. r\<lparr>geometry := centroid cen (geometry r)\<rparr>) rows) \<and>
      frames w' gdf \<noteq> frames w gdf"
    using a assms by simp
next
  assume a: "\<not> polygons_as_points \<and>
     (\<lambda>r. geom_type (geometry r)) ` set rows = {''Polygon'', ''MultiPolygon''}"
  then have t: "(\<lambda>r. geom_type (geometry r)) ` set rows = {''Polygon'', ''MultiPolygon''}"
    by (rule conjunct2)
  then have "''Polygon'' \<in> (\<lambda>r. geom_type (geometry r)) ` set rows"
    by (simp only: insertI1)
  then obtain r where r: "r \<in> set rows" "geom_type (geometry r) = ''Polygon''"
    by (auto simp only: image_iff)
  from r(2) have "single_member (geometry r) \<noteq> geometry r"
    by (rule single_member_polygon)
  with r(1) have "map (\<lambda>r. r\<lparr>geometry := single_member (geometry r)\<rparr>) rows \<noteq> rows"
    by (rule set_geometry_changes)
  with write_upcast [OF assms t, of cen filepath layer_name]
  show "\<exists>w'. write_geodatabase cen gdf filepath layer_name polygons_as_points w = Inr w' \<and>
      frames w' gdf = Some (map (\<lambda>r. r\<lparr>geometry := single_member (geometry r)\<rparr>) rows) \<and>
      frames w' gdf \<noteq> frames w gdf"
    using a assms by simp
qed

text \<open>
  One frame with a polygon and a multi-polygon, written once as polygons and once as
  points.
\<close>

theorem write_geodatabase_mutates_caller_witness:
  "frames \<lparr>frames = [0 \<mapsto> [\<lparr>COMID = 1, geometry = Polygon (7::nat)\<rparr>,
                            \<lparr>COMID = 2, geometry = MultiPolygon [8, 9]\<rparr>]],
           files = [], stdout = []\<rparr> 0
     = Some [\<lparr>COMID = 1, geometry = Polygon 7\<rparr>, \<lparr>COMID = 2, geometry = MultiPolygon [8, 9]\<rparr>] \<and>
   (\<lambda>r. geom_type (geometry r)) `
      set [\<lparr>COMID = 1, geometry = Polygon (7::nat)\<rparr>, \<lparr>COMID = 2, geometry = MultiPolygon [8, 9]\<rparr>]
     = {''Polygon'', ''MultiPolygon''} \<and>
   write_geodatabase (\<lambda>g. 0) 0 ''out.gdb'' ''watersheds'' False
     \<lparr>frames = [0 \<mapsto> [\<lparr>COMID = 1, geometry = Polygon (7::nat)\<rparr>,
                         \<lparr>COMID = 2, geometry = MultiPolygon [8, 9]\<rparr>]],
      files = [], stdout = []\<rparr>
   = Inr \<lparr>frames = [0 \<mapsto> [\<lparr>COMID = 1, geometry = MultiPolygon [7]\<rparr>,
                              \<lparr>COMID = 2, geometry = MultiPolygon [8, 9]\<rparr>]],
          files = [((''out.gdb'', ''watersheds''),
                    [\<lparr>COMID = 1, geometry = MultiPolygon [7]\<rparr>,
                     \<lparr>COMID = 2, geometry = MultiPolygon [8, 9]\<rparr>])],
          stdout = [''warning: multiple geometry types in geodataframe'',
                    ''upcasting polygons to multipolygons to achieve consistency'']\<rparr> \<and>
   write_geodatabase (\<lambda>g. 0) 0 ''out.gdb'' ''points'' True
     \<lparr>frames = [0 \<mapsto> [\<lparr>COMID = 1, geometry = Polygon (7::nat)\<rparr>,
                         \<lparr>COMID = 2, geometry = MultiPolygon [8, 9]\<rparr>]],
      files = [], stdout = []\<rparr>
   = Inr \<lparr>frames = [0 \<mapsto> [\<lparr>COMID = 1, geometry = Point 0\<rparr>, \<lparr>COMID = 2, geometry = Point 0\<rparr>]],
          files = [((''out.gdb'', ''points''),
                    [\<lparr>COMID = 1, geometry = Point 0\<rparr>, \<lparr>COMID = 2, geometry = Point 0\<rparr>])],
          stdout = []\<rparr>"
proof -
  let ?rows = "[\<lparr>COMID = 1, geometry = Polygon (7::nat)\<rparr>,
                \<lparr>COMID = 2, geometry = MultiPolygon [8, 9]\<rparr>]"
  let ?w = "\<lparr>frames = [0 \<mapsto> ?rows], files = [], stdout = []\<rparr>"
  have f: "frames ?w 0 = Some ?rows" by simp
  have t: "(\<lambda>r. geom_type (geometry r)) ` set ?rows = {''Polygon'', ''MultiPolygon''}" by simp
  have p: "\<exists>r \<in> set ?rows. geom_type (geometry r) \<in> {''Polygon'', ''MultiPolygon''}" by simp
  note u = write_upcast [OF f t, of "\<lambda>g. 0" "''out.gdb''" "''watersheds''"]
  note c = write_centroids [OF f p, of "\<lambda>g. 0" "''out.gdb''" "''points''"]
  from write_geodatabase_mutates_caller [OF f, of False "\<lambda>g. 0" "''out.gdb''" "''watersheds''"]
    write_geodatabase_mutates_caller [OF f, of True "\<lambda>g. 0" "''out.gdb''" "''points''"]
    f t u c
  show ?thesis by (simp add: centroid_def)
qed

section \<open>The order of the geometries that are merged\<close>

text \<open>
  The geometries handed to \<^verbatim>\<open>union_all\<close> are selected from \<^verbatim>\<open>catchments\<close> by a
  boolean mask, so they arrive in the row order of \<^verbatim>\<open>catchments\<close>: the selection is
  a function of the upstream set alone, whatever order the traversal found its members
  in. What the geometry library then computes from them is outside this development.
\<close>

lemma watershed_polygon_selection:
  assumes "source \<in> set (nodes G)"
  shows "\<exists>p. get_watershed_boundaries U source G catchments =
           Inr (union_all U
                  (map geometry (filter (\<lambda>r. COMID r \<in> upstream G source) catchments)), p)"
proof -
  from ancestors_upstream [OF assms] obtain ups where
    ups: "ancestors G source = Inr ups" and s: "set (source # ups) = upstream G source"
    by blast
  have "filter (\<lambda>r. COMID r \<in> set ([source] @ ups)) catchments =
        filter (\<lambda>r. COMID r \<in> upstream G source) catchments"
    using s by simp
  then show ?thesis
    using ups by (simp add: get_watershed_boundaries_def Let_def del: set_simps append.simps)
qed

end
